theory Spec2Isabelle
  imports Main "HOL-Library.Word"
begin

unbundle bit_operations_syntax

section \<open>The registry of parchment (src/registry.ts)\<close>

text \<open>
  The development embeds the class \<^verbatim>\<open>Registry\<close> of \<^verbatim>\<open>src/registry.ts\<close>: its four
  lookup tables, the static node-to-blot table, and the operations \<^verbatim>\<open>register\<close>,
  \<^verbatim>\<open>query\<close>, \<^verbatim>\<open>create\<close> and \<^verbatim>\<open>find\<close>.

  Modelling decisions, each forced by what the TypeScript does:
  \<^item> Definitions are JavaScript objects with identity, and \<^verbatim>\<open>register\<close> rewrites the
    \<^verbatim>\<open>tagName\<close> of a blot class in place. Definitions therefore live in a store
    (\<open>heap\<close>) and the tables hold references into it.
  \<^item> A table \<^verbatim>\<open>{ [key: string]: T }\<close> is an object literal: reading a key finds the
    object's own entry, and otherwise the member of that name inherited from
    \<^verbatim>\<open>Object.prototype\<close>; writing the key \<^verbatim>\<open>__proto__\<close> replaces the prototype.
  \<^item> A thrown exception is a value of type \<open>error\<close>; the state reached when the
    exception leaves the method is returned beside it, since nothing is rolled back.
  \<^item> The bitwise operators of JavaScript work on 32-bit integers; a scope is a
    \<open>32 word\<close>, and a number is truthy when it is not zero.
  \<^item> A string is a list of UTF-16 code units.
\<close>

subsection \<open>Strings\<close>

type_synonym js_string = "16 word list"

text \<open>A string literal of ASCII characters.\<close>

definition ascii :: "string \<Rightarrow> js_string" where
  "ascii s = map of_char s"

text \<open>
  The class \<^verbatim>\<open>\s\<close> of a regular expression: the white space and the line
  terminators of ECMAScript.
\<close>

definition is_space :: "16 word \<Rightarrow> bool" where
  "is_space c =
     (c \<in> {9, 10, 11, 12, 13, 32, 160, 5760, 8232, 8233, 8239, 8287, 12288, 65279}
      \<or> (8192 \<le> c \<and> c \<le> 8202))"

text \<open>
  \<^verbatim>\<open>s.split(/\s+/)\<close>: the pieces between maximal runs of white space. The empty
  string gives one empty piece, and white space at either end gives an empty piece
  there.
\<close>

function split_ws :: "js_string \<Rightarrow> js_string list" where
  "split_ws s =
     (let tok = takeWhile (\<lambda>c. \<not> is_space c) s;
          rest = dropWhile (\<lambda>c. \<not> is_space c) s
      in if rest = [] then [tok] else tok # split_ws (dropWhile is_space rest))"
  by pat_completeness auto
termination
proof (relation "measure length")
  show "wf (measure length)" by simp
next
  fix s :: js_string and tok rest
  assume rest: "rest = dropWhile (\<lambda>c. \<not> is_space c) s" and ne: "rest \<noteq> []"
  have "length (dropWhile is_space rest) < length rest"
  proof (cases rest)
    case Nil
    with ne show ?thesis by simp
  next
    case (Cons c cs)
    with rest have "is_space c"
      by (metis hd_dropWhile list.sel(1) ne)
    with Cons have "dropWhile is_space rest = dropWhile is_space cs" by simp
    moreover have "length (dropWhile is_space cs) \<le> length cs"
      by (rule length_dropWhile_le)
    ultimately show ?thesis using Cons by simp
  qed
  moreover have "length rest \<le> length s"
    unfolding rest by (rule length_dropWhile_le)
  ultimately show "(dropWhile is_space rest, s) \<in> measure length" by simp
qed

declare split_ws.simps [simp del]

subsection \<open>Scopes and the runtime\<close>

type_synonym scope = "32 word"

type_synonym ref = nat

text \<open>What reading a key of a table gives: nothing, a definition object, or another object.\<close>

datatype js_member = Missing | Entry ref | Inherited

text \<open>
  The enumeration \<^verbatim>\<open>Scope\<close> is imported from \<^verbatim>\<open>./scope\<close>, which is not part of the
  sources at hand: the members that the registry reads are parameters of the model.
  So are two things that JavaScript supplies: \<^verbatim>\<open>String.prototype.toUpperCase\<close>, whose
  table of case mappings is that of Unicode, and the members that a definition object
  shows to a table whose prototype it has become (\<open>member_via\<close>), which depend on the
  classes outside \<^verbatim>\<open>registry.ts\<close>; such a member is taken to be undefined or an
  object.
\<close>

record scope_enum =
  Scope_TYPE :: scope
  Scope_LEVEL :: scope
  Scope_INLINE :: scope
  Scope_BLOCK :: scope
  Scope_ANY :: scope

record runtime = scope_enum +
  toUpperCase :: "js_string \<Rightarrow> js_string"
  member_via :: "ref \<Rightarrow> js_string \<Rightarrow> js_member"

subsection \<open>Tables\<close>

text \<open>
  An object literal used as a table: its own entries, and the definition object that
  an assignment to \<^verbatim>\<open>__proto__\<close> has put in the place of \<^verbatim>\<open>Object.prototype\<close>, if any.
\<close>

record table =
  own :: "js_string \<rightharpoonup> ref"
  proto :: "ref option"

definition empty_table :: table where
  "empty_table = \<lparr>own = Map.empty, proto = None\<rparr>"

text \<open>The names of the members of \<^verbatim>\<open>Object.prototype\<close>.\<close>

definition Object_prototype :: "js_string list" where
  "Object_prototype =
     map ascii [''constructor'', ''__defineGetter__'', ''__defineSetter__'', ''hasOwnProperty'',
       ''__lookupGetter__'', ''__lookupSetter__'', ''isPrototypeOf'', ''propertyIsEnumerable'',
       ''toString'', ''valueOf'', ''__proto__'', ''toLocaleString'']"

text \<open>
  \<^verbatim>\<open>t[k]\<close>. The key \<^verbatim>\<open>__proto__\<close> is never an own entry of a table, since an
  assignment to it goes to the setter: reading it gives the prototype, which is an
  object other than a definition until a definition has replaced it. For another key
  an own entry comes first. Without one, a table with the original prototype gives
  the inherited member of that name, a function, and a table with a replaced
  prototype gives what the prototype shows.
\<close>

definition tbl_get :: "runtime \<Rightarrow> table \<Rightarrow> js_string \<Rightarrow> js_member" where
  "tbl_get S t k =
     (if k = ascii ''__proto__'' then (case proto t of None \<Rightarrow> Inherited | Some p \<Rightarrow> Entry p)
      else case own t k of
        Some r \<Rightarrow> Entry r
      | None \<Rightarrow>
          (case proto t of
             None \<Rightarrow> if k \<in> set Object_prototype then Inherited else Missing
           | Some p \<Rightarrow> member_via S p k))"

text \<open>
  \<^verbatim>\<open>t[k] = d\<close> for a definition object \<open>d\<close>: the setter of \<^verbatim>\<open>__proto__\<close> replaces the
  prototype, any other key becomes an own entry.
\<close>

definition tbl_set :: "js_string \<Rightarrow> ref \<Rightarrow> table \<Rightarrow> table" where
  "tbl_set k d t =
     (if k = ascii ''__proto__'' then t\<lparr>proto := Some d\<rparr> else t\<lparr>own := (own t)(k \<mapsto> d)\<rparr>)"

subsection \<open>External tree nodes\<close>

text \<open>
  A node value is a snapshot of a DOM node: its identity, which of \<^verbatim>\<open>Text\<close> and
  \<^verbatim>\<open>Element\<close> it is an instance of, its tag, its class attribute and the outcome of
  reading \<^verbatim>\<open>parentNode\<close>, which either throws or returns the parent or null. The
  chain of parents of a DOM node is finite, which the datatype expresses.
\<close>

datatype node_kind = TextNode | ElementNode | OtherNode

datatype 'a access = Throws | Returns 'a

datatype node =
  Node (node_id: nat) (kind: node_kind) (elem_tagName: js_string)
       (class_attr: "js_string option") (parentNode: "node option access")

subsection \<open>Blots and definitions\<close>

datatype js_value = Undefined | StringValue js_string | NumberValue int

type_synonym root = nat

record blot =
  blot_id :: nat
  domNode :: node

datatype tag_decl = SingleTag js_string | TagList "js_string list"

record scoped =
  scope :: scope

text \<open>
  The static side of a blot class, as the registry reads it: \<^verbatim>\<open>blotName\<close>,
  \<^verbatim>\<open>className\<close>, \<^verbatim>\<open>tagName\<close>, \<^verbatim>\<open>scope\<close>, the static factory \<^verbatim>\<open>create(value)\<close> and the
  constructor \<^verbatim>\<open>new blotClass(scroll, node, value)\<close>. Factory and constructor belong
  to the blot classes, outside \<^verbatim>\<open>registry.ts\<close>; they are fields of the model, and
  they are taken to return.
\<close>

record blot_constructor = scoped +
  blotName :: js_string
  className :: "js_string option"
  tagName :: "tag_decl option"
  create_node :: "js_value \<Rightarrow> node"
  construct :: "root \<Rightarrow> node \<Rightarrow> js_value \<Rightarrow> blot"

record attributor = scoped +
  attrName :: js_string
  keyName :: "js_string option"

datatype registry_definition =
  BlotConstructor blot_constructor
| Attributor attributor
| Unrecognised

text \<open>
  Modelled from the spec: \<^verbatim>\<open>isBlotConstructor\<close> and \<^verbatim>\<open>isAttributor\<close> are imported
  from modules that are not part of the sources at hand. The spec classifies a
  definition by its capability set: a structural name with a scope, or an attribute
  name with a scope; an object with neither shape is \<open>Unrecognised\<close>. The type
  \<^verbatim>\<open>RegistryDefinition\<close> is the union of the two shapes, so a definition has one of
  them at most.
\<close>

fun isBlotConstructor :: "registry_definition \<Rightarrow> bool" where
  "isBlotConstructor (BlotConstructor b) = True"
| "isBlotConstructor _ = False"

fun isAttributor :: "registry_definition \<Rightarrow> bool" where
  "isAttributor (Attributor a) = True"
| "isAttributor _ = False"

text \<open>\<^verbatim>\<open>'scope' in match\<close> together with \<^verbatim>\<open>match.scope\<close>.\<close>

fun scope_of :: "registry_definition \<Rightarrow> scope option" where
  "scope_of (BlotConstructor b) = Some (scope b)"
| "scope_of (Attributor a) = Some (scope a)"
| "scope_of Unrecognised = None"

text \<open>The key under which \<^verbatim>\<open>register\<close> files a definition in \<^verbatim>\<open>types\<close>.\<close>

fun def_name :: "registry_definition \<Rightarrow> js_string option" where
  "def_name (BlotConstructor b) = Some (blotName b)"
| "def_name (Attributor a) = Some (attrName a)"
| "def_name Unrecognised = None"

subsection \<open>The state\<close>

text \<open>
  One registry instance with the two things it shares with the rest of the program:
  the definition objects (\<open>heap\<close>) and the static \<^verbatim>\<open>Registry.blots\<close>, a WeakMap keyed
  by node identity.
\<close>

record state =
  heap :: "ref \<Rightarrow> registry_definition"
  blots :: "nat \<rightharpoonup> blot"
  attributes :: table
  classes :: table
  tags :: table
  types :: table

datatype error = InvalidDefinition | AbstractRegistration | UnresolvedBlot | TypeError

subsection \<open>find\<close>

text \<open>
  The static \<^verbatim>\<open>Registry.find\<close>, over the table \<^verbatim>\<open>Registry.blots\<close>. A blot is an
  object, so \<^verbatim>\<open>this.blots.get(node) || null\<close> is the stored blot.
\<close>

function Registry_find :: "(nat \<rightharpoonup> blot) \<Rightarrow> node option \<Rightarrow> bool \<Rightarrow> blot option" where
  "Registry_find bl None bubble = None"
| "Registry_find bl (Some n) bubble =
     (if bl (node_id n) \<noteq> None then bl (node_id n)
      else if bubble then
        (case parentNode n of
           Throws \<Rightarrow> None
         | Returns parent \<Rightarrow> Registry_find bl parent bubble)
      else None)"
  by pat_completeness auto
termination
proof (relation "measure (\<lambda>(bl, n, b). size_option size n)")
  show "wf (measure (\<lambda>(bl, n, b). size_option size n))" by simp
next
  fix bl :: "nat \<rightharpoonup> blot" and n :: node and bubble :: bool and parent
  assume "parentNode n = Returns parent"
  then show "((bl, parent, bubble), (bl, Some n, bubble))
      \<in> measure (\<lambda>(bl, n, b). size_option size n)"
    by (cases n; cases parent) auto
qed

text \<open>The instance method \<^verbatim>\<open>find\<close> hands over to the static one.\<close>

definition find_blot :: "state \<Rightarrow> node option \<Rightarrow> bool \<Rightarrow> blot option" where
  "find_blot s node bubble = Registry_find (blots s) node bubble"

subsection \<open>query\<close>

text \<open>
  The loop \<^verbatim>\<open>names.some(...)\<close>: the value of \<^verbatim>\<open>match\<close> when it ends. An object is
  truthy, so the loop stops at the first name for which the table gives anything.
\<close>

fun some_class :: "runtime \<Rightarrow> table \<Rightarrow> js_string list \<Rightarrow> js_member" where
  "some_class S cls [] = Missing"
| "some_class S cls (name # names) =
     (case tbl_get S cls name of
        Missing \<Rightarrow> some_class S cls names
      | match \<Rightarrow> match)"

datatype query_key = QString js_string | QNode node | QNumber scope

text \<open>The value of \<^verbatim>\<open>match\<close> when \<^verbatim>\<open>query\<close> reaches its null test.\<close>

fun candidate :: "runtime \<Rightarrow> state \<Rightarrow> query_key \<Rightarrow> js_member" where
  "candidate S s (QString q) =
     (case tbl_get S (types s) q of
        Missing \<Rightarrow> tbl_get S (attributes s) q
      | match \<Rightarrow> match)"
| "candidate S s (QNumber q) =
     (if q AND Scope_LEVEL S AND Scope_BLOCK S \<noteq> 0 then tbl_get S (types s) (ascii ''block'')
      else if q AND Scope_LEVEL S AND Scope_INLINE S \<noteq> 0
        then tbl_get S (types s) (ascii ''inline'')
      else Missing)"
| "candidate S s (QNode q) =
     (case kind q of
        TextNode \<Rightarrow> tbl_get S (types s) (ascii ''text'')
      | ElementNode \<Rightarrow>
          (let names = split_ws (case class_attr q of None \<Rightarrow> [] | Some c \<Rightarrow> c)
           in case some_class S (classes s) names of
                Missing \<Rightarrow> tbl_get S (tags s) (elem_tagName q)
              | match \<Rightarrow> match)
      | OtherNode \<Rightarrow> Missing)"

text \<open>
  The end of \<^verbatim>\<open>query\<close>: null for no match, and for a match without \<^verbatim>\<open>scope\<close>, which
  an inherited member is; otherwise the test of the two axes.
\<close>

definition query :: "runtime \<Rightarrow> state \<Rightarrow> query_key \<Rightarrow> scope \<Rightarrow> ref option" where
  "query S s q sc =
     (case candidate S s q of
        Missing \<Rightarrow> None
      | Inherited \<Rightarrow> None
      | Entry m \<Rightarrow>
          (case scope_of (heap s m) of
             None \<Rightarrow> None
           | Some msc \<Rightarrow>
               if sc AND Scope_LEVEL S AND msc \<noteq> 0 \<and> sc AND Scope_TYPE S AND msc \<noteq> 0
               then Some m else None))"

subsection \<open>register\<close>

text \<open>The upper-cased \<^verbatim>\<open>tagName\<close> that \<^verbatim>\<open>register\<close> writes back into the class.\<close>

fun upper_tags :: "runtime \<Rightarrow> tag_decl \<Rightarrow> tag_decl" where
  "upper_tags S (SingleTag t) = SingleTag (toUpperCase S t)"
| "upper_tags S (TagList ts) = TagList (map (toUpperCase S) ts)"

fun tagNames :: "tag_decl \<Rightarrow> js_string list" where
  "tagNames (SingleTag t) = [t]"
| "tagNames (TagList ts) = ts"

text \<open>\<^verbatim>\<open>if (definition.tagName)\<close>: an empty string is falsy, every array is truthy.\<close>

fun truthy_tag :: "tag_decl option \<Rightarrow> bool" where
  "truthy_tag None = False"
| "truthy_tag (Some (SingleTag t)) = (t \<noteq> [])"
| "truthy_tag (Some (TagList ts)) = True"

text \<open>The body of \<^verbatim>\<open>tagNames.forEach\<close>.\<close>

definition claim_tag :: "runtime \<Rightarrow> ref \<Rightarrow> js_string option \<Rightarrow> js_string \<Rightarrow> table \<Rightarrow> table" where
  "claim_tag S d cn tag tgs =
     (if tbl_get S tgs tag = Missing \<or> cn = None then tbl_set tag d tgs else tgs)"

text \<open>The callback of \<^verbatim>\<open>definitions.map\<close>, for the definition object at reference \<open>d\<close>.\<close>

definition register_one :: "runtime \<Rightarrow> state \<Rightarrow> ref \<Rightarrow> state \<times> (error + ref)" where
  "register_one S s d =
     (let definition = heap s d;
          isBlot = isBlotConstructor definition;
          isAttr = isAttributor definition
      in if \<not> isBlot \<and> \<not> isAttr then (s, Inl InvalidDefinition)
         else case definition of
           Unrecognised \<Rightarrow> (s, Inl InvalidDefinition)
         | Attributor a \<Rightarrow>
             (let s1 = s\<lparr>types := tbl_set (attrName a) d (types s)\<rparr>;
                  s2 = (case keyName a of
                          Some k \<Rightarrow> s1\<lparr>attributes := tbl_set k d (attributes s1)\<rparr>
                        | None \<Rightarrow> s1)
              in (s2, Inr d))
         | BlotConstructor b \<Rightarrow>
             if blotName b = ascii ''abstract'' then (s, Inl AbstractRegistration)
             else
               (let s1 = s\<lparr>types := tbl_set (blotName b) d (types s)\<rparr>;
                    s2 = (case className b of
                            Some c \<Rightarrow>
                              if c \<noteq> [] then s1\<lparr>classes := tbl_set c d (classes s1)\<rparr> else s1
                          | None \<Rightarrow> s1);
                    s3 = (case tagName b of
                            None \<Rightarrow> s2
                          | Some t \<Rightarrow>
                              if truthy_tag (Some t) then
                                (let t' = upper_tags S t in
                                 s2\<lparr>heap := (heap s2)(d := BlotConstructor (b\<lparr>tagName := Some t'\<rparr>)),
                                    tags := fold (claim_tag S d (className b)) (tagNames t') (tags s2)\<rparr>)
                              else s2)
                in (s3, Inr d)))"

text \<open>
  \<^verbatim>\<open>definitions.map\<close> runs the callback on the definitions in order. An exception
  thrown by the callback leaves \<^verbatim>\<open>map\<close> and \<^verbatim>\<open>register\<close> at once.
\<close>

fun register :: "runtime \<Rightarrow> state \<Rightarrow> ref list \<Rightarrow> state \<times> (error + ref list)" where
  "register S s [] = (s, Inr [])"
| "register S s (d # ds) =
     (case register_one S s d of
        (s', Inl e) \<Rightarrow> (s', Inl e)
      | (s', Inr r) \<Rightarrow>
          (case register S s' ds of
             (s'', Inl e) \<Rightarrow> (s'', Inl e)
           | (s'', Inr rs) \<Rightarrow> (s'', Inr (r # rs))))"

subsection \<open>create\<close>

text \<open>
  Modelled from the spec: the class of attribute handlers is not part of the sources
  at hand. By the spec a handler exposes a name, a key and a scope, and neither a
  factory nor a constructor. \<^verbatim>\<open>create\<close> casts its match to a blot class without a
  test, so on a handler \<^verbatim>\<open>blotClass.create(value)\<close> and \<^verbatim>\<open>new blotClass(...)\<close> raise the
  \<^verbatim>\<open>TypeError\<close> of JavaScript.
\<close>

definition create :: "runtime \<Rightarrow> state \<Rightarrow> root \<Rightarrow> query_key \<Rightarrow> js_value \<Rightarrow> state \<times> (error + blot)" where
  "create S s scroll input v =
     (case query S s input (Scope_ANY S) of
        None \<Rightarrow> (s, Inl UnresolvedBlot)
      | Some m \<Rightarrow>
          (case heap s m of
             BlotConstructor blotClass \<Rightarrow>
               (let node = (case input of QNode n \<Rightarrow> n | _ \<Rightarrow> create_node blotClass v);
                    blot = construct blotClass scroll node v
                in (s\<lparr>blots := (blots s)(node_id (domNode blot) \<mapsto> blot)\<rparr>, Inr blot))
           | _ \<Rightarrow> (s, Inl TypeError)))"

text \<open>\<^verbatim>\<open>new Registry()\<close>: the four tables start empty.\<close>

definition new_registry :: "(ref \<Rightarrow> registry_definition) \<Rightarrow> (nat \<rightharpoonup> blot) \<Rightarrow> state" where
  "new_registry h bl =
     \<lparr>heap = h, blots = bl, attributes = empty_table, classes = empty_table,
      tags = empty_table, types = empty_table\<rparr>"

subsection \<open>Notions used to state the properties\<close>

text \<open>
  The tags a blot class declares, as \<^verbatim>\<open>register\<close> files them: none when \<^verbatim>\<open>tagName\<close>
  is falsy, otherwise the upper-cased names.
\<close>

definition declared_tags :: "runtime \<Rightarrow> blot_constructor \<Rightarrow> js_string list" where
  "declared_tags S b =
     (case tagName b of
        None \<Rightarrow> []
      | Some t \<Rightarrow> if truthy_tag (Some t) then tagNames (upper_tags S t) else [])"

text \<open>The requested scope meets the declared one on the level axis and on the type axis.\<close>

definition scope_admits :: "runtime \<Rightarrow> scope \<Rightarrow> scope \<Rightarrow> bool" where
  "scope_admits S sc msc =
     (sc AND Scope_LEVEL S AND msc \<noteq> 0 \<and> sc AND Scope_TYPE S AND msc \<noteq> 0)"

text \<open>A table holds the definition \<open>r\<close> under the key \<open>k\<close>.\<close>

definition has_entry :: "table \<Rightarrow> js_string \<Rightarrow> ref \<Rightarrow> bool" where
  "has_entry t k r = (if k = ascii ''__proto__'' then proto t = Some r else own t k = Some r)"

text \<open>
  What one registration does to the definition object it registers: the \<^verbatim>\<open>tagName\<close>
  of a blot class, when truthy, is replaced by its upper-cased form; nothing else
  changes.
\<close>

definition upcased :: "runtime \<Rightarrow> registry_definition \<Rightarrow> registry_definition" where
  "upcased S x =
     (case x of
        BlotConstructor b \<Rightarrow>
          (case tagName b of
             None \<Rightarrow> x
           | Some t \<Rightarrow>
               if truthy_tag (Some t) then BlotConstructor (b\<lparr>tagName := Some (upper_tags S t)\<rparr>)
               else x)
      | _ \<Rightarrow> x)"

text \<open>
  The nodes above a node, nearest first, as far as \<^verbatim>\<open>parentNode\<close> can be read: the
  chain ends at a node without parent and at a node whose parent cannot be read.
\<close>

function ancestors :: "node \<Rightarrow> node list" where
  "ancestors n =
     (case parentNode n of
        Throws \<Rightarrow> []
      | Returns None \<Rightarrow> []
      | Returns (Some p) \<Rightarrow> p # ancestors p)"
  by pat_completeness auto
termination
proof (relation "measure size")
  show "wf (measure (size :: node \<Rightarrow> nat))" by simp
next
  fix n :: node and x p
  assume "parentNode n = Returns x" "x = Some p"
  then show "(p, n) \<in> measure size" by (cases n) auto
qed

declare ancestors.simps [simp del]

text \<open>The blot of the first node of a list that has one.\<close>

fun first_bound :: "(nat \<rightharpoonup> blot) \<Rightarrow> node list \<Rightarrow> blot option" where
  "first_bound bl [] = None"
| "first_bound bl (n # ns) =
     (case bl (node_id n) of Some b \<Rightarrow> Some b | None \<Rightarrow> first_bound bl ns)"

subsection \<open>Sample data\<close>

text \<open>
  A layout of \<^verbatim>\<open>Scope\<close> with two type bits below two level bits, the upper-casing of
  the letters of ASCII, which is what \<^verbatim>\<open>toUpperCase\<close> does on strings of ASCII, and a
  few definition objects.
\<close>

definition ascii_upper :: "js_string \<Rightarrow> js_string" where
  "ascii_upper s = map (\<lambda>c. if 97 \<le> c \<and> c \<le> 122 then c - 32 else c) s"

definition sample_scope :: runtime where
  "sample_scope =
     \<lparr>Scope_TYPE = 3, Scope_LEVEL = 12, Scope_INLINE = 7, Scope_BLOCK = 11, Scope_ANY = 15,
      toUpperCase = ascii_upper, member_via = (\<lambda>p k. Missing)\<rparr>"

definition sample_blot :: "nat \<Rightarrow> string \<Rightarrow> string option \<Rightarrow> tag_decl option \<Rightarrow> blot_constructor" where
  "sample_blot i name cls tag =
     \<lparr>scope = 6, blotName = ascii name, className = map_option ascii cls, tagName = tag,
      create_node = (\<lambda>v. Node (100 + i) ElementNode (ascii ''X'') None (Returns None)),
      construct = (\<lambda>scroll n v. \<lparr>blot_id = i, domNode = n\<rparr>)\<rparr>"

definition sample_heap :: "ref \<Rightarrow> registry_definition" where
  "sample_heap r =
     (if r = 1 then
        BlotConstructor (sample_blot 1 ''a'' (Some ''c1'') (Some (SingleTag (ascii ''x''))))
      else if r = 2 then
        BlotConstructor (sample_blot 2 ''b'' None (Some (TagList [ascii ''X''])))
      else if r = 3 then
        Attributor \<lparr>scope = 5, attrName = ascii ''color'', keyName = Some (ascii ''color'')\<rparr>
      else if r = 4 then
        Attributor \<lparr>scope = 1, attrName = ascii ''flat'', keyName = None\<rparr>
      else if r = 5 then BlotConstructor (sample_blot 5 ''abstract'' None None)
      else if r = 6 then BlotConstructor (sample_blot 6 ''a'' (Some ''c2'') None)
      else if r = 8 then
        BlotConstructor (sample_blot 8 ''c'' (Some ''c3'') (Some (SingleTag (ascii ''X''))))
      else if r = 9 then
        BlotConstructor
          ((sample_blot 9 ''d'' None (Some (SingleTag (ascii ''X''))))\<lparr>scope := 1\<rparr>)
      else Unrecognised)"

definition sample_registry :: state where
  "sample_registry = new_registry sample_heap Map.empty"

definition sample_bound :: state where
  "sample_bound =
     new_registry sample_heap
       [102 \<mapsto> \<lparr>blot_id = 0,
          domNode = Node 102 ElementNode (ascii ''X'') None (Returns None)\<rparr>]"

definition sample_inherited :: node where
  "sample_inherited =
     Node 4 ElementNode (ascii ''X'') (Some (ascii ''constructor c1'')) (Returns None)"

definition sample_plain :: node where
  "sample_plain = Node 5 ElementNode (ascii ''X'') (Some (ascii ''c1'')) (Returns None)"

definition sample_parent :: node where
  "sample_parent = Node 1 ElementNode (ascii ''P'') None (Returns None)"

definition sample_child :: node where
  "sample_child = Node 2 ElementNode (ascii ''X'') None (Returns (Some sample_parent))"

section \<open>Properties\<close>

subsection \<open>Evaluation of the sample data\<close>

lemmas sample_defs =
  sample_registry_def new_registry_def sample_heap_def sample_blot_def sample_scope_def
  register_one_def claim_tag_def tbl_get_def tbl_set_def empty_table_def Object_prototype_def
  ascii_def ascii_upper_def Let_def

subsection \<open>find\<close>

lemma Registry_find_chain:
  "Registry_find bl (Some n) True = first_bound bl (n # ancestors n)"
proof (induction n rule: ancestors.induct)
  case (1 n)
  show ?case
  proof (cases "parentNode n")
    case Throws
    then show ?thesis by (simp add: ancestors.simps[of n] split: option.splits)
  next
    case (Returns x)
    show ?thesis
    proof (cases x)
      case None
      with Returns show ?thesis by (simp add: ancestors.simps[of n] split: option.splits)
    next
      case (Some p)
      with Returns 1 have "Registry_find bl (Some p) True = first_bound bl (p # ancestors p)"
        by simp
      with Returns Some show ?thesis
        by (simp add: ancestors.simps[of n] split: option.splits)
    qed
  qed
qed

text \<open>
  Claim C9. \<^verbatim>\<open>find(node, bubble)\<close> returns null for a null node and the blot bound
  to the node when there is one. Without a bound blot and without \<open>bubble\<close> it returns
  null at once. Without a bound blot and with \<open>bubble\<close> it returns null when reading
  the parent fails, and otherwise what \<^verbatim>\<open>find\<close> returns for the parent; altogether
  it returns the blot of the nearest bound node among the node and its readable
  ancestors, and null when there is none. The instance method is the static one.
\<close>

theorem find_cases:
  "Registry_find bl None bubble = None
   \<and> (bl (node_id n) = Some b \<longrightarrow> Registry_find bl (Some n) bubble = Some b)
   \<and> (bl (node_id n) = None \<longrightarrow> Registry_find bl (Some n) False = None)
   \<and> (bl (node_id n) = None \<longrightarrow> parentNode n = Throws \<longrightarrow>
        Registry_find bl (Some n) True = None)
   \<and> (bl (node_id n) = None \<longrightarrow> parentNode n = Returns p \<longrightarrow>
        Registry_find bl (Some n) True = Registry_find bl p True)
   \<and> Registry_find bl (Some n) True = first_bound bl (n # ancestors n)
   \<and> find_blot s node bubble = Registry_find (blots s) node bubble"
  using Registry_find_chain [of bl n] by (simp add: find_blot_def)

theorem find_cases_witness:
  "[1 \<mapsto> \<lparr>blot_id = 7, domNode = sample_parent\<rparr>] (node_id sample_child) = None
   \<and> parentNode sample_child = Returns (Some sample_parent)
   \<and> Registry_find [1 \<mapsto> \<lparr>blot_id = 7, domNode = sample_parent\<rparr>] (Some sample_child) True
       = Some \<lparr>blot_id = 7, domNode = sample_parent\<rparr>
   \<and> Registry_find [1 \<mapsto> \<lparr>blot_id = 7, domNode = sample_parent\<rparr>] (Some sample_child) False
       = None
   \<and> Registry_find [1 \<mapsto> \<lparr>blot_id = 7, domNode = sample_parent\<rparr>] (Some sample_parent) False
       = Some \<lparr>blot_id = 7, domNode = sample_parent\<rparr>"
  using
    find_cases [of "[1 \<mapsto> \<lparr>blot_id = 7, domNode = sample_parent\<rparr>]" False sample_child
      "\<lparr>blot_id = 7, domNode = sample_parent\<rparr>" "Some sample_parent"]
    find_cases [of "[1 \<mapsto> \<lparr>blot_id = 7, domNode = sample_parent\<rparr>]" False sample_parent
      "\<lparr>blot_id = 7, domNode = sample_parent\<rparr>" None]
  by (simp add: sample_child_def sample_parent_def)


subsection \<open>query\<close>

lemma and_zero_axis: "(sc :: scope) AND msc = 0 \<Longrightarrow> sc AND ax AND msc = 0"
proof -
  assume "sc AND msc = 0"
  moreover have "sc AND ax AND msc = ax AND (sc AND msc)" by (simp add: ac_simps)
  ultimately show ?thesis by simp
qed

lemma query_Some_iff:
  "query S s q sc = Some m \<longleftrightarrow>
     candidate S s q = Entry m
     \<and> (\<exists>msc. scope_of (heap s m) = Some msc \<and> scope_admits S sc msc)"
  by (auto simp: query_def scope_admits_def split: js_member.splits option.splits if_splits)

lemma query_None_iff:
  "query S s q sc = None \<longleftrightarrow>
     (\<forall>m. candidate S s q = Entry m \<longrightarrow>
        (\<forall>msc. scope_of (heap s m) = Some msc \<longrightarrow> \<not> scope_admits S sc msc))"
  by (auto simp: query_def scope_admits_def split: js_member.splits option.splits if_splits)

text \<open>
  Claim C2. When \<^verbatim>\<open>query\<close> has found a candidate, it returns the candidate exactly
  when the requested scope meets the candidate's declared scope on the level axis
  and on the type axis, and null otherwise: an empty meet on one axis is enough for
  null. In particular a requested scope that has no bit in common with the declared
  scope gives null.
\<close>

theorem query_scope_filter:
  assumes "candidate S s q = Entry m"
  shows "(query S s q sc = Some m \<longleftrightarrow>
           (\<exists>msc. scope_of (heap s m) = Some msc
                  \<and> sc AND Scope_LEVEL S AND msc \<noteq> 0 \<and> sc AND Scope_TYPE S AND msc \<noteq> 0))
         \<and> (query S s q sc \<noteq> Some m \<longrightarrow> query S s q sc = None)
         \<and> (scope_of (heap s m) = Some msc \<longrightarrow>
              sc AND Scope_LEVEL S AND msc = 0 \<or> sc AND Scope_TYPE S AND msc = 0 \<longrightarrow>
              query S s q sc = None)
         \<and> (scope_of (heap s m) = Some msc \<longrightarrow> sc AND msc = 0 \<longrightarrow> query S s q sc = None)"
proof (intro conjI impI)
  show "query S s q sc = Some m \<longleftrightarrow>
           (\<exists>msc. scope_of (heap s m) = Some msc
                  \<and> sc AND Scope_LEVEL S AND msc \<noteq> 0 \<and> sc AND Scope_TYPE S AND msc \<noteq> 0)"
    using assms by (simp add: query_Some_iff scope_admits_def)
next
  assume "query S s q sc \<noteq> Some m"
  with assms show "query S s q sc = None"
    by (auto simp: query_def split: js_member.splits option.splits if_splits)
next
  assume "scope_of (heap s m) = Some msc"
    and "sc AND Scope_LEVEL S AND msc = 0 \<or> sc AND Scope_TYPE S AND msc = 0"
  with assms show "query S s q sc = None"
    by (auto simp: query_def)
next
  assume "scope_of (heap s m) = Some msc" "sc AND msc = 0"
  with assms show "query S s q sc = None"
    by (simp add: query_def and_zero_axis)
qed

theorem query_scope_filter_witness:
  "candidate sample_scope (fst (register sample_scope sample_registry [3])) (QString (ascii ''color'')) = Entry 3
   \<and> scope_of (heap (fst (register sample_scope sample_registry [3])) 3) = Some 5
   \<and> query sample_scope (fst (register sample_scope sample_registry [3])) (QString (ascii ''color'')) 15 = Some 3
   \<and> query sample_scope (fst (register sample_scope sample_registry [3])) (QString (ascii ''color'')) 10 = None
   \<and> query sample_scope (fst (register sample_scope sample_registry [3])) (QString (ascii ''color'')) 9 = None"
  using
    query_scope_filter [of sample_scope "fst (register sample_scope sample_registry [3])"
      "QString (ascii ''color'')" 3 15 5]
    query_scope_filter [of sample_scope "fst (register sample_scope sample_registry [3])"
      "QString (ascii ''color'')" 3 10 5]
    query_scope_filter [of sample_scope "fst (register sample_scope sample_registry [3])"
      "QString (ascii ''color'')" 3 9 5]
  by (simp add: sample_defs)

subsection \<open>Tables\<close>

lemma has_entry_get: "has_entry t k r \<Longrightarrow> tbl_get S t k = Entry r"
  by (auto simp: has_entry_def tbl_get_def)

lemma has_entry_set: "has_entry (tbl_set k d t) k d"
  by (simp add: has_entry_def tbl_set_def)

lemma has_entry_set_other: "k' \<noteq> k \<Longrightarrow> has_entry (tbl_set k d t) k' r = has_entry t k' r"
  by (auto simp: has_entry_def tbl_set_def)

lemma has_entry_unique: "has_entry t k r \<Longrightarrow> has_entry t k r' \<Longrightarrow> r' = r"
  by (auto simp: has_entry_def split: if_splits)

lemma tbl_get_set_other:
  "k' \<noteq> k \<Longrightarrow> k \<noteq> ascii ''__proto__'' \<Longrightarrow> tbl_get S (tbl_set k d t) k' = tbl_get S t k'"
  by (auto simp: tbl_get_def tbl_set_def split: option.splits)

subsection \<open>register\<close>

lemma register_one_invalid:
  "\<not> isBlotConstructor (heap s d) \<Longrightarrow> \<not> isAttributor (heap s d) \<Longrightarrow>
   register_one S s d = (s, Inl InvalidDefinition)"
  by (simp add: register_one_def)

lemma register_one_abstract:
  "heap s d = BlotConstructor b \<Longrightarrow> blotName b = ascii ''abstract'' \<Longrightarrow>
   register_one S s d = (s, Inl AbstractRegistration)"
  by (simp add: register_one_def)

lemma register_one_error:
  "register_one S s d = (s', Inl e) \<Longrightarrow> s' = s"
  by (auto simp: register_one_def Let_def split: registry_definition.splits if_splits option.splits)

lemma register_one_ref:
  "register_one S s d = (s', Inr r) \<Longrightarrow> r = d"
  by (auto simp: register_one_def Let_def split: registry_definition.splits if_splits option.splits)

lemma register_one_heap:
  "register_one S s d = (s', Inr r) \<Longrightarrow> heap s' = (heap s)(d := upcased S (heap s d))"
  by (auto simp: register_one_def Let_def upcased_def fun_eq_iff
      split: registry_definition.splits if_splits option.splits)

lemma upcased_facts:
  "def_name (upcased S x) = def_name x" "scope_of (upcased S x) = scope_of x"
  "isBlotConstructor (upcased S x) = isBlotConstructor x"
  "isAttributor (upcased S x) = isAttributor x"
  by (auto simp: upcased_def split: registry_definition.splits option.splits)

lemma upcased_blot:
  "\<exists>b'. upcased S (BlotConstructor b) = BlotConstructor b' \<and> blotName b' = blotName b
     \<and> className b' = className b \<and> scope b' = scope b"
  by (auto simp: upcased_def split: option.splits)

lemma register_one_kept:
  assumes "register_one S s d = (s', res)"
  shows "def_name (heap s' r) = def_name (heap s r)" and "scope_of (heap s' r) = scope_of (heap s r)"
    and "isBlotConstructor (heap s' r) = isBlotConstructor (heap s r)"
    and "isAttributor (heap s' r) = isAttributor (heap s r)"
proof -
  have "heap s' r = heap s r \<or> heap s' r = upcased S (heap s r)"
  proof (cases res)
    case (Inl e)
    with assms have "s' = s" by (simp add: register_one_error)
    then show ?thesis by simp
  next
    case (Inr x)
    with assms have "heap s' = (heap s)(d := upcased S (heap s d))"
      by (simp add: register_one_heap)
    then show ?thesis by auto
  qed
  then show "def_name (heap s' r) = def_name (heap s r)"
    and "scope_of (heap s' r) = scope_of (heap s r)"
    and "isBlotConstructor (heap s' r) = isBlotConstructor (heap s r)"
    and "isAttributor (heap s' r) = isAttributor (heap s r)"
    by (auto simp: upcased_facts)
qed

lemma register_one_blot_kept:
  assumes "register_one S s d = (s', res)" and "heap s r = BlotConstructor b"
  shows "\<exists>b'. heap s' r = BlotConstructor b' \<and> blotName b' = blotName b
     \<and> className b' = className b \<and> scope b' = scope b"
proof (cases res)
  case (Inl e)
  with assms have "s' = s" by (simp add: register_one_error)
  with assms(2) show ?thesis by simp
next
  case (Inr x)
  with assms have "heap s' = (heap s)(d := upcased S (heap s d))"
    by (simp add: register_one_heap)
  with assms(2) upcased_blot [of S b] show ?thesis by (cases "r = d") auto
qed

lemma register_one_heap_other:
  "register_one S s d = (s', res) \<Longrightarrow> r \<noteq> d \<Longrightarrow> heap s' r = heap s r"
  by (auto simp: register_one_def Let_def
      split: registry_definition.splits if_splits option.splits)

lemma register_one_blots:
  "register_one S s d = (s', res) \<Longrightarrow> blots s' = blots s"
  by (auto simp: register_one_def Let_def
      split: registry_definition.splits if_splits option.splits)

lemma register_one_types:
  "register_one S s d = (s', Inr r) \<Longrightarrow>
   \<exists>nm. def_name (heap s d) = Some nm \<and> types s' = tbl_set nm d (types s)"
  by (auto simp: register_one_def Let_def
      split: registry_definition.splits if_splits option.splits)

lemma register_append:
  "register S s (xs @ ys) =
     (case register S s xs of
        (s', Inl e) \<Rightarrow> (s', Inl e)
      | (s', Inr rs) \<Rightarrow>
          (case register S s' ys of
             (s'', Inl e) \<Rightarrow> (s'', Inl e)
           | (s'', Inr rs') \<Rightarrow> (s'', Inr (rs @ rs'))))"
  by (induction xs arbitrary: s) (auto split: prod.splits sum.splits)

lemma register_refs:
  "register S s ds = (s', Inr rs) \<Longrightarrow> rs = ds"
  by (induction ds arbitrary: s rs) (auto split: prod.splits sum.splits dest: register_one_ref)

text \<open>The three ways a batch with a first definition can go.\<close>

lemma register_Cons_cases:
  assumes "register S s (d # ds) = (s', res)"
  obtains (stop) e where "register_one S s d = (s, Inl e)" "s' = s" "res = Inl e"
  | (go) s1 res1 where "register_one S s d = (s1, Inr d)" "register S s1 ds = (s', res1)"
      "res = (case res1 of Inl e \<Rightarrow> Inl e | Inr rs \<Rightarrow> Inr (d # rs))"
proof -
  obtain s1 r1 where one: "register_one S s d = (s1, r1)" by (cases "register_one S s d")
  show thesis
  proof (cases r1)
    case (Inl e)
    with one have "s1 = s" by (simp add: register_one_error)
    with one Inl assms show thesis by (intro stop [of e]) auto
  next
    case (Inr x)
    with one have x: "x = d" by (simp add: register_one_ref)
    obtain s2 r2 where rest: "register S s1 ds = (s2, r2)" by (cases "register S s1 ds")
    with one Inr x assms show thesis
      by (intro go [of s1 r2]) (auto split: sum.splits)
  qed
qed

lemma register_kept:
  "register S s ds = (s', res) \<Longrightarrow>
   def_name (heap s' r) = def_name (heap s r) \<and> scope_of (heap s' r) = scope_of (heap s r)
   \<and> isBlotConstructor (heap s' r) = isBlotConstructor (heap s r)
   \<and> isAttributor (heap s' r) = isAttributor (heap s r)"
proof (induction ds arbitrary: s s' res)
  case Nil
  then show ?case by simp
next
  case (Cons d ds)
  from Cons.prems show ?case
  proof (cases rule: register_Cons_cases)
    case (stop e)
    then show ?thesis by simp
  next
    case (go s1 res1)
    from Cons.IH [OF go(2)] register_one_kept [OF go(1), of r] show ?thesis by simp
  qed
qed

lemma register_blot_kept:
  "register S s ds = (s', res) \<Longrightarrow> heap s r = BlotConstructor b \<Longrightarrow>
   \<exists>b'. heap s' r = BlotConstructor b' \<and> blotName b' = blotName b
     \<and> className b' = className b \<and> scope b' = scope b"
proof (induction ds arbitrary: s s' res b)
  case Nil
  then show ?case by simp
next
  case (Cons d ds)
  from Cons.prems(1) show ?case
  proof (cases rule: register_Cons_cases)
    case (stop e)
    with Cons.prems(2) show ?thesis by simp
  next
    case (go s1 res1)
    from register_one_blot_kept [OF go(1) Cons.prems(2)] obtain b1
      where b1: "heap s1 r = BlotConstructor b1" "blotName b1 = blotName b"
        "className b1 = className b" "scope b1 = scope b"
      by blast
    from Cons.IH [OF go(2) b1(1)] b1 show ?thesis by auto
  qed
qed

lemma register_blots:
  "register S s ds = (s', res) \<Longrightarrow> blots s' = blots s"
proof (induction ds arbitrary: s s' res)
  case Nil
  then show ?case by simp
next
  case (Cons d ds)
  from Cons.prems show ?case
  proof (cases rule: register_Cons_cases)
    case (stop e)
    then show ?thesis by simp
  next
    case (go s1 res1)
    from Cons.IH [OF go(2)] register_one_blots [OF go(1)] show ?thesis by simp
  qed
qed

text \<open>A batch stops at the first definition whose registration throws.\<close>

lemma register_stops:
  assumes "register S s pre = (s1, Inr rs)" and "register_one S s1 d = (s1, Inl e)"
  shows "register S s (pre @ d # post) = (s1, Inl e)"
  using assms by (simp add: register_append)

lemma register_types_other:
  assumes "register S s ds = (s', res)" and "\<forall>x \<in> set ds. def_name (heap s x) \<noteq> Some nm"
  shows "has_entry (types s') nm r = has_entry (types s) nm r"
  using assms
proof (induction ds arbitrary: s s' res)
  case Nil
  then show ?case by simp
next
  case (Cons d ds)
  from Cons.prems(1) show ?case
  proof (cases rule: register_Cons_cases)
    case (stop e)
    then show ?thesis by simp
  next
    case (go s1 res1)
    from go(1) obtain n where n: "def_name (heap s d) = Some n" "types s1 = tbl_set n d (types s)"
      by (auto dest: register_one_types)
    from Cons.prems(2) n have "nm \<noteq> n" by auto
    with n have t1: "has_entry (types s1) nm r = has_entry (types s) nm r"
      by (simp add: has_entry_set_other)
    have "\<forall>x \<in> set ds. def_name (heap s1 x) \<noteq> Some nm"
      using Cons.prems(2) register_one_kept(1) [OF go(1)] by simp
    from Cons.IH [OF go(2) this] t1 show ?thesis by simp
  qed
qed

text \<open>
  Claim C4. Registering a blot class whose \<^verbatim>\<open>blotName\<close> is \<^verbatim>\<open>abstract\<close> fails with
  \<open>AbstractRegistration\<close> and changes nothing: the state after the failed entry is
  the state before it, so the tables by name, by tag and by class are as they were.
  In a batch, the state is the one left by the definitions before the entry.
\<close>

theorem register_abstract_fails:
  assumes "heap s d = BlotConstructor b" and "blotName b = ascii ''abstract''"
  shows "register_one S s d = (s, Inl AbstractRegistration)
         \<and> register S s [d] = (s, Inl AbstractRegistration)
         \<and> (register S s pre = (s1, Inr rs) \<longrightarrow>
              register S s (pre @ d # post) = (s1, Inl AbstractRegistration))"
proof (intro conjI impI)
  show one: "register_one S s d = (s, Inl AbstractRegistration)"
    using assms by (rule register_one_abstract)
  then show "register S s [d] = (s, Inl AbstractRegistration)" by simp
next
  assume pre: "register S s pre = (s1, Inr rs)"
  from register_blot_kept [OF pre assms(1)]
  obtain b' where "heap s1 d = BlotConstructor b'" "blotName b' = blotName b"
    by blast
  with assms(2) have "register_one S s1 d = (s1, Inl AbstractRegistration)"
    by (simp add: register_one_abstract)
  with pre show "register S s (pre @ d # post) = (s1, Inl AbstractRegistration)"
    by (rule register_stops)
qed

theorem register_abstract_fails_witness:
  "heap sample_registry 5 = BlotConstructor (sample_blot 5 ''abstract'' None None)
   \<and> blotName (sample_blot 5 ''abstract'' None None) = ascii ''abstract''
   \<and> register sample_scope sample_registry [5] = (sample_registry, Inl AbstractRegistration)
   \<and> tbl_get sample_scope (types (fst (register sample_scope sample_registry [3, 5, 2])))
        (ascii ''color'') = Entry 3
   \<and> tbl_get sample_scope (types (fst (register sample_scope sample_registry [3, 5, 2])))
        (ascii ''abstract'') = Missing
   \<and> snd (register sample_scope sample_registry [3, 5, 2]) = Inl AbstractRegistration"
  using register_abstract_fails [of sample_registry 5 "sample_blot 5 ''abstract'' None None"
      sample_scope "[3]" "fst (register sample_scope sample_registry [3])" "[3]" "[2]"]
  by (simp add: sample_defs)

text \<open>
  Claim C3, as amended. When a batch holds a definition of neither shape and the
  definitions before it register without error, \<^verbatim>\<open>register\<close> fails with
  \<open>InvalidDefinition\<close> at that definition: the definitions before it stay
  registered, and the definitions after it are not attempted.
\<close>

theorem register_invalid_stops:
  assumes "\<not> isBlotConstructor (heap s d)" and "\<not> isAttributor (heap s d)"
    and "register S s pre = (s1, Inr rs)"
  shows "register S s (pre @ d # post) = (s1, Inl InvalidDefinition)"
proof -
  from assms(1,2) register_kept [OF assms(3), of d]
  have "\<not> isBlotConstructor (heap s1 d)" "\<not> isAttributor (heap s1 d)"
    by simp_all
  then have "register_one S s1 d = (s1, Inl InvalidDefinition)" by (rule register_one_invalid)
  with assms(3) show ?thesis by (rule register_stops)
qed

theorem register_invalid_stops_witness:
  "\<not> isBlotConstructor (heap sample_registry 7) \<and> \<not> isAttributor (heap sample_registry 7)
   \<and> snd (register sample_scope sample_registry [3]) = Inr [3]
   \<and> snd (register sample_scope sample_registry [3, 7, 2]) = Inl InvalidDefinition
   \<and> tbl_get sample_scope (types (fst (register sample_scope sample_registry [3, 7, 2])))
        (ascii ''color'') = Entry 3
   \<and> tbl_get sample_scope (types (fst (register sample_scope sample_registry [3, 7, 2])))
        (ascii ''b'') = Missing"
  using register_invalid_stops [of sample_registry 7 sample_scope "[3]"
      "fst (register sample_scope sample_registry [3])" "[3]" "[2]"]
  by (simp add: sample_defs)

text \<open>
  Claim C3 as stated fails: in the batch of an object of neither shape followed by the
  blot class \<open>b\<close>, the class is not registered, though alone it registers.
\<close>

theorem register_invalid_counterexample:
  "snd (register sample_scope sample_registry [7, 2]) = Inl InvalidDefinition
   \<and> tbl_get sample_scope (types (fst (register sample_scope sample_registry [7, 2])))
        (ascii ''b'') = Missing
   \<and> tbl_get sample_scope (tags (fst (register sample_scope sample_registry [7, 2])))
        (ascii ''X'') = Missing
   \<and> snd (register sample_scope sample_registry [2]) = Inr [2]
   \<and> tbl_get sample_scope (types (fst (register sample_scope sample_registry [2])))
        (ascii ''b'') = Entry 2
   \<and> tbl_get sample_scope (tags (fst (register sample_scope sample_registry [2])))
        (ascii ''X'') = Entry 2"
  by (simp add: sample_defs)

lemma claim_tag_held:
  "has_entry tgs T x \<Longrightarrow>
   has_entry (claim_tag S d cn t tgs) T (if t = T \<and> cn = None then d else x)"
proof (cases "t = T")
  case True
  assume h: "has_entry tgs T x"
  then have "tbl_get S tgs T = Entry x" by (rule has_entry_get)
  with True h show ?thesis by (simp add: claim_tag_def has_entry_set)
next
  case False
  assume "has_entry tgs T x"
  with False show ?thesis by (simp add: claim_tag_def has_entry_set_other)
qed

lemma fold_claim_held:
  "has_entry tgs T x \<Longrightarrow>
   has_entry (fold (claim_tag S d cn) ts tgs) T (if T \<in> set ts \<and> cn = None then d else x)"
proof (induction ts arbitrary: tgs x)
  case Nil
  then show ?case by simp
next
  case (Cons t ts)
  from claim_tag_held [OF Cons.prems, of S d cn t]
  have "has_entry (claim_tag S d cn t tgs) T (if t = T \<and> cn = None then d else x)" .
  from Cons.IH [OF this] show ?case by (auto split: if_splits)
qed

lemma fold_claim_takes:
  "T \<in> set ts \<Longrightarrow>
   (tbl_get S tgs T = Missing \<and> ascii ''__proto__'' \<notin> set ts) \<or> cn = None \<Longrightarrow>
   has_entry (fold (claim_tag S d cn) ts tgs) T d"
proof (induction ts arbitrary: tgs)
  case Nil
  then show ?case by simp
next
  case (Cons t ts)
  show ?case
  proof (cases "t = T")
    case True
    with Cons.prems(2) have "has_entry (claim_tag S d cn t tgs) T d"
      by (auto simp: claim_tag_def has_entry_set)
    from fold_claim_held [OF this, of S d cn ts] show ?thesis by simp
  next
    case False
    with Cons.prems(1) have in_ts: "T \<in> set ts" by simp
    have "(tbl_get S (claim_tag S d cn t tgs) T = Missing \<and> ascii ''__proto__'' \<notin> set ts)
        \<or> cn = None"
      using Cons.prems(2) False by (auto simp: claim_tag_def tbl_get_set_other)
    from Cons.IH [OF in_ts this] show ?thesis by simp
  qed
qed

lemma register_one_tags:
  assumes "heap s d = BlotConstructor b" and "blotName b \<noteq> ascii ''abstract''"
  shows "\<exists>s'. register_one S s d = (s', Inr d)
           \<and> tags s' = fold (claim_tag S d (className b)) (declared_tags S b) (tags s)"
  using assms
  by (auto simp: register_one_def Let_def declared_tags_def
      split: option.splits tag_decl.splits)

lemma split_empty: "split_ws [] = [] # []"
  by (simp add: split_ws.simps [of "[]"])

lemma register_one_tag_after:
  assumes "heap s2 b = BlotConstructor B" and "blotName B \<noteq> ascii ''abstract''"
    and "has_entry (tags s2) T x"
  shows "\<exists>s3. register_one S s2 b = (s3, Inr b)
           \<and> has_entry (tags s3) T (if T \<in> set (declared_tags S B) \<and> className B = None
                                      then b else x)"
proof -
  from register_one_tags [OF assms(1,2), of S] obtain s3
    where s3: "register_one S s2 b = (s3, Inr b)"
      and t3: "tags s3 = fold (claim_tag S b (className B)) (declared_tags S B) (tags s2)"
    by blast
  from fold_claim_held [OF assms(3), of S b "className B" "declared_tags S B"] t3 s3
  show ?thesis by simp
qed

lemma element_without_class:
  assumes "kind n = ElementNode" and "class_attr n = None"
    and "tbl_get S (classes s) [] = Missing"
  shows "candidate S s (QNode n) = tbl_get S (tags s) (elem_tagName n)"
  using assms by (simp add: split_empty)

text \<open>
  Claim C1, as amended. Let the blot classes \<open>A\<close> and \<open>B\<close> declare the tag \<open>T\<close>
  (after upper-casing), and let \<open>A\<close> take the tag when it is registered: the table by
  tag gives nothing for \<open>T\<close> before (and \<open>A\<close> does not declare \<^verbatim>\<open>__proto__\<close>), or \<open>A\<close>
  has no \<^verbatim>\<open>className\<close>. After registering \<open>A\<close> and then \<open>B\<close>, in two calls or in one,
  the table by tag gives \<open>A\<close> for \<open>T\<close>, unless \<open>B\<close> has no \<^verbatim>\<open>className\<close>, in which
  case it gives \<open>B\<close>; the same holds when \<open>B\<close> is registered in any later state in
  which the table by tag still holds \<open>A\<close> for \<open>T\<close>. When \<open>B\<close> has no \<^verbatim>\<open>className\<close>
  and the table by class gives nothing for the empty string, the candidate of
  \<^verbatim>\<open>query\<close> for an element with tag \<open>T\<close> and no class attribute is \<open>B\<close>, and
  \<^verbatim>\<open>query\<close> returns \<open>B\<close> when the requested scope admits the scope of \<open>B\<close>, and
  null otherwise.
\<close>

theorem tag_tie_break:
  assumes "heap s a = BlotConstructor A" and "blotName A \<noteq> ascii ''abstract''"
    and "T \<in> set (declared_tags S A)"
    and "(tbl_get S (tags s) T = Missing \<and> ascii ''__proto__'' \<notin> set (declared_tags S A))
         \<or> className A = None"
    and "heap s b = BlotConstructor B" and "blotName B \<noteq> ascii ''abstract''"
    and "T \<in> set (declared_tags S B)"
  shows "(\<exists>s1 s'. register S s [a] = (s1, Inr [a]) \<and> register S s1 [b] = (s', Inr [b])
           \<and> register S s [a, b] = (s', Inr [a, b])
           \<and> tbl_get S (tags s1) T = Entry a
           \<and> tbl_get S (tags s') T = Entry (if className B = None then b else a)
           \<and> (className B = None \<and> tbl_get S (classes s') [] = Missing \<longrightarrow>
                (\<forall>n. kind n = ElementNode \<and> class_attr n = None \<and> elem_tagName n = T \<longrightarrow>
                   candidate S s' (QNode n) = Entry b
                   \<and> query S s' (QNode n) sc
                       = (if scope_admits S sc (scope B) then Some b else None))))
         \<and> (\<forall>s2. has_entry (tags s2) T a \<and> heap s2 b = BlotConstructor B \<longrightarrow>
              (\<exists>s3. register S s2 [b] = (s3, Inr [b])
                 \<and> tbl_get S (tags s3) T = Entry (if className B = None then b else a)))"
proof (rule conjI)
  from register_one_tags [OF assms(1,2), of S] obtain s1
    where s1: "register_one S s a = (s1, Inr a)"
      and t1: "tags s1 = fold (claim_tag S a (className A)) (declared_tags S A) (tags s)"
    by blast
  from fold_claim_takes [OF assms(3,4), of a] t1 have h1: "has_entry (tags s1) T a" by simp
  from register_one_blot_kept [OF s1 assms(5)] obtain B'
    where B': "heap s1 b = BlotConstructor B'" "blotName B' = blotName B"
      "className B' = className B" "scope B' = scope B"
    by blast
  from register_one_tag_after [OF B'(1) _ h1, of S] B'(2) assms(6) obtain s2
    where s2: "register_one S s1 b = (s2, Inr b)"
      and h2: "has_entry (tags s2) T (if T \<in> set (declared_tags S B') \<and> className B' = None
                                      then b else a)"
    by auto
  have decl: "a \<noteq> b \<Longrightarrow> T \<in> set (declared_tags S B')"
  proof -
    assume "a \<noteq> b"
    then have "heap s1 b = heap s b" using s1 by (simp add: register_one_heap_other)
    with B'(1) assms(5) have "B' = B" by simp
    with assms(7) show ?thesis by simp
  qed
  have held: "has_entry (tags s2) T (if className B = None then b else a)"
  proof (cases "a = b")
    case True
    with h2 show ?thesis by (simp split: if_splits)
  next
    case False
    with decl h2 B'(3) show ?thesis by simp
  qed
  then have tag: "tbl_get S (tags s2) T = Entry (if className B = None then b else a)"
    by (rule has_entry_get)
  have reg: "register S s [a, b] = (s2, Inr [a, b])" using s1 s2 by simp
  have seq: "register S s [a] = (s1, Inr [a]) \<and> register S s1 [b] = (s2, Inr [b])"
    using s1 s2 by simp
  have sc2: "scope_of (heap s2 b) = Some (scope B)"
    using register_kept [OF reg, of b] assms(5) by simp
  have el: "className B = None \<and> tbl_get S (classes s2) [] = Missing \<longrightarrow>
      (\<forall>n. kind n = ElementNode \<and> class_attr n = None \<and> elem_tagName n = T \<longrightarrow>
         candidate S s2 (QNode n) = Entry b
         \<and> query S s2 (QNode n) sc = (if scope_admits S sc (scope B) then Some b else None))"
  proof (intro impI allI)
    fix n
    assume h: "className B = None \<and> tbl_get S (classes s2) [] = Missing"
      and n: "kind n = ElementNode \<and> class_attr n = None \<and> elem_tagName n = T"
    from element_without_class [of n S s2] h n tag
    have c: "candidate S s2 (QNode n) = Entry b" by simp
    with sc2 show "candidate S s2 (QNode n) = Entry b
         \<and> query S s2 (QNode n) sc = (if scope_admits S sc (scope B) then Some b else None)"
      by (simp add: query_def scope_admits_def)
  qed
  from seq reg has_entry_get [OF h1, of S] tag el
  show "\<exists>s1 s'. register S s [a] = (s1, Inr [a]) \<and> register S s1 [b] = (s', Inr [b])
           \<and> register S s [a, b] = (s', Inr [a, b])
           \<and> tbl_get S (tags s1) T = Entry a
           \<and> tbl_get S (tags s') T = Entry (if className B = None then b else a)
           \<and> (className B = None \<and> tbl_get S (classes s') [] = Missing \<longrightarrow>
                (\<forall>n. kind n = ElementNode \<and> class_attr n = None \<and> elem_tagName n = T \<longrightarrow>
                   candidate S s' (QNode n) = Entry b
                   \<and> query S s' (QNode n) sc
                       = (if scope_admits S sc (scope B) then Some b else None)))"
    by blast
next
  show "\<forall>s2. has_entry (tags s2) T a \<and> heap s2 b = BlotConstructor B \<longrightarrow>
              (\<exists>s3. register S s2 [b] = (s3, Inr [b])
                 \<and> tbl_get S (tags s3) T = Entry (if className B = None then b else a))"
  proof (intro allI impI)
    fix s2 :: state
    assume h: "has_entry (tags s2) T a \<and> heap s2 b = BlotConstructor B"
    from register_one_tag_after [of s2 b B T a S] h assms(6,7) obtain s3
      where s3: "register_one S s2 b = (s3, Inr b)"
        and h3: "has_entry (tags s3) T (if className B = None then b else a)"
      by auto
    from s3 have "register S s2 [b] = (s3, Inr [b])" by simp
    with has_entry_get [OF h3, of S]
    show "\<exists>s3. register S s2 [b] = (s3, Inr [b])
                 \<and> tbl_get S (tags s3) T = Entry (if className B = None then b else a)"
      by blast
  qed
qed

theorem tag_tie_break_witness:
  "tbl_get sample_scope (tags sample_registry) (ascii ''X'') = Missing
   \<and> ascii ''X'' \<in> set (declared_tags sample_scope
         (sample_blot 1 ''a'' (Some ''c1'') (Some (SingleTag (ascii ''x'')))))
   \<and> ascii ''X'' \<in> set (declared_tags sample_scope
         (sample_blot 2 ''b'' None (Some (TagList [ascii ''X'']))))
   \<and> ascii ''X'' \<in> set (declared_tags sample_scope
         (sample_blot 8 ''c'' (Some ''c3'') (Some (SingleTag (ascii ''X'')))))
   \<and> tbl_get sample_scope (tags (fst (register sample_scope sample_registry [1, 2])))
        (ascii ''X'') = Entry 2
   \<and> query sample_scope (fst (register sample_scope sample_registry [1, 2]))
        (QNode sample_child) 15 = Some 2
   \<and> tbl_get sample_scope (tags (fst (register sample_scope sample_registry [1, 8])))
        (ascii ''X'') = Entry 1"
proof -
  let ?A = "sample_blot 1 ''a'' (Some ''c1'') (Some (SingleTag (ascii ''x'')))"
  let ?B = "sample_blot 2 ''b'' None (Some (TagList [ascii ''X'']))"
  let ?C = "sample_blot 8 ''c'' (Some ''c3'') (Some (SingleTag (ascii ''X'')))"
  have t0: "tbl_get sample_scope (tags sample_registry) (ascii ''X'') = Missing"
    by (simp add: sample_defs)
  have a: "heap sample_registry 1 = BlotConstructor ?A"
    by (simp add: sample_registry_def new_registry_def sample_heap_def)
  have b: "heap sample_registry 2 = BlotConstructor ?B"
    by (simp add: sample_registry_def new_registry_def sample_heap_def)
  have c: "heap sample_registry 8 = BlotConstructor ?C"
    by (simp add: sample_registry_def new_registry_def sample_heap_def)
  have na: "blotName ?A \<noteq> ascii ''abstract''" by (simp add: sample_blot_def ascii_def)
  have nb: "blotName ?B \<noteq> ascii ''abstract''" by (simp add: sample_blot_def ascii_def)
  have nc: "blotName ?C \<noteq> ascii ''abstract''" by (simp add: sample_blot_def ascii_def)
  have da: "ascii ''X'' \<in> set (declared_tags sample_scope ?A)"
    by (simp add: declared_tags_def sample_blot_def sample_scope_def ascii_def ascii_upper_def)
  have db: "ascii ''X'' \<in> set (declared_tags sample_scope ?B)"
    by (simp add: declared_tags_def sample_blot_def sample_scope_def ascii_def ascii_upper_def)
  have dc: "ascii ''X'' \<in> set (declared_tags sample_scope ?C)"
    by (simp add: declared_tags_def sample_blot_def sample_scope_def ascii_def ascii_upper_def)
  have t: "(tbl_get sample_scope (tags sample_registry) (ascii ''X'') = Missing
      \<and> ascii ''__proto__'' \<notin> set (declared_tags sample_scope ?A)) \<or> className ?A = None"
    using t0
    by (simp add: declared_tags_def sample_blot_def sample_scope_def ascii_def ascii_upper_def)
  have e: "tbl_get sample_scope (classes (fst (register sample_scope sample_registry [1, 2]))) []
      = Missing"
    by (simp add: sample_defs)
  from tag_tie_break [OF a na da t b nb db, of 15] e
  have r12: "tbl_get sample_scope (tags (fst (register sample_scope sample_registry [1, 2])))
        (ascii ''X'') = Entry 2
    \<and> query sample_scope (fst (register sample_scope sample_registry [1, 2]))
        (QNode sample_child) 15 = Some 2"
    by (auto simp: sample_blot_def sample_child_def sample_scope_def scope_admits_def)
  from tag_tie_break [OF a na da t c nc dc, of 15]
  have r18: "tbl_get sample_scope (tags (fst (register sample_scope sample_registry [1, 8])))
        (ascii ''X'') = Entry 1"
    by (auto simp: sample_blot_def)
  from t0 da db dc r12 r18 show ?thesis by blast
qed

text \<open>
  Claim C1 as stated fails. Of three classes that declare the tag \<open>X\<close>, the first
  without \<^verbatim>\<open>className\<close>, the second and the third are registered in that order and
  the third has a \<^verbatim>\<open>className\<close>, yet the tag resolves to the first, not the second.
  And after \<open>A\<close> with a \<^verbatim>\<open>className\<close> and \<open>B\<close> without one, where the scope of \<open>B\<close> has
  no level bit, \<^verbatim>\<open>query\<close> of an element with the tag and no class attribute returns
  null, not \<open>B\<close>.
\<close>

theorem tag_tie_break_counterexample:
  "snd (register sample_scope sample_registry [2, 1, 8]) = Inr [2, 1, 8]
   \<and> tbl_get sample_scope (tags (fst (register sample_scope sample_registry [2, 1, 8])))
        (ascii ''X'') = Entry 2
   \<and> snd (register sample_scope sample_registry [1, 9]) = Inr [1, 9]
   \<and> tbl_get sample_scope (tags (fst (register sample_scope sample_registry [1, 9])))
        (ascii ''X'') = Entry 9
   \<and> query sample_scope (fst (register sample_scope sample_registry [1, 9]))
        (QNode sample_child) (Scope_ANY sample_scope) = None"
  by (simp add: sample_defs query_def sample_child_def split_empty)

lemma register_heap_exact:
  "register S s ds = (s', Inr rs) \<Longrightarrow>
   heap s' r = (upcased S ^^ count_list ds r) (heap s r)"
proof (induction ds arbitrary: s s' rs)
  case Nil
  then show ?case by simp
next
  case (Cons d ds)
  from Cons.prems show ?case
  proof (cases rule: register_Cons_cases)
    case (stop e)
    then show ?thesis by simp
  next
    case (go s1 res1)
    from go(3) obtain rs1 where "res1 = Inr rs1" by (cases res1) auto
    with go(2) have rest: "register S s1 ds = (s', Inr rs1)" by simp
    have h1: "heap s1 = (heap s)(d := upcased S (heap s d))"
      by (rule register_one_heap [OF go(1)])
    from Cons.IH [OF rest] have ih: "heap s' r = (upcased S ^^ count_list ds r) (heap s1 r)" .
    show ?thesis
    proof (cases "r = d")
      case True
      with ih h1 show ?thesis by (simp add: funpow_swap1)
    next
      case False
      with ih h1 show ?thesis by simp
    qed
  qed
qed

text \<open>
  Claim C8, as amended. A successful \<^verbatim>\<open>register\<close> returns the references it was
  given. Every definition object is what it was but for the \<^verbatim>\<open>tagName\<close> of a blot
  class, upper-cased in place once for each time the class stands in the batch. For
  a definition \<open>D\<close> of the batch that is the last one of the batch with its name and
  whose scope is admitted by \<^verbatim>\<open>ANY\<close>, \<^verbatim>\<open>query(D.name)\<close> under \<^verbatim>\<open>ANY\<close> returns the
  reference \<open>D\<close>.
\<close>

theorem register_query_roundtrip:
  assumes "register S s ds = (s', Inr rs)"
  shows "rs = ds
         \<and> (\<forall>r. heap s' r = (upcased S ^^ count_list ds r) (heap s r))
         \<and> (\<forall>pre d post nm msc.
               ds = pre @ d # post \<and> def_name (heap s d) = Some nm
               \<and> (\<forall>x \<in> set post. def_name (heap s x) \<noteq> Some nm)
               \<and> scope_of (heap s d) = Some msc \<and> scope_admits S (Scope_ANY S) msc
               \<longrightarrow> query S s' (QString nm) (Scope_ANY S) = Some d)"
proof (intro conjI allI impI)
  show "rs = ds" by (rule register_refs [OF assms])
next
  fix r show "heap s' r = (upcased S ^^ count_list ds r) (heap s r)"
    by (rule register_heap_exact [OF assms])
next
  fix pre d post nm msc
  assume h: "ds = pre @ d # post \<and> def_name (heap s d) = Some nm
               \<and> (\<forall>x \<in> set post. def_name (heap s x) \<noteq> Some nm)
               \<and> scope_of (heap s d) = Some msc \<and> scope_admits S (Scope_ANY S) msc"
  obtain s1 r1 where pre: "register S s pre = (s1, r1)" by (cases "register S s pre")
  obtain s2 r2 where one: "register_one S s1 d = (s2, r2)" by (cases "register_one S s1 d")
  obtain s3 r3 where post: "register S s2 post = (s3, r3)" by (cases "register S s2 post")
  from assms h pre one post have ok: "s3 = s'" "\<exists>x. r2 = Inr x"
    by (auto simp: register_append split: sum.splits)
  have n2: "def_name (heap s2 x) = def_name (heap s x)" for x
    using register_kept [OF pre, of x] register_one_kept(1) [OF one, of x] by simp
  from ok one obtain n where n: "def_name (heap s1 d) = Some n" "types s2 = tbl_set n d (types s1)"
    by (auto dest: register_one_types)
  from n(1) h register_kept [OF pre, of d] have "n = nm" by simp
  with n have t2: "has_entry (types s2) nm d" by (simp add: has_entry_set)
  have "\<forall>x \<in> set post. def_name (heap s2 x) \<noteq> Some nm" using h n2 by simp
  from register_types_other [OF post this, of d] t2 ok have "has_entry (types s') nm d" by simp
  then have t': "tbl_get S (types s') nm = Entry d" by (rule has_entry_get)
  have "scope_of (heap s' d) = scope_of (heap s d)"
    using register_kept [OF assms, of d] by simp
  with h t' show "query S s' (QString nm) (Scope_ANY S) = Some d"
    by (simp add: query_def scope_admits_def)
qed

theorem register_query_roundtrip_witness:
  "snd (register sample_scope sample_registry [1, 3, 2]) = Inr [1, 3, 2]
   \<and> def_name (heap sample_registry 3) = Some (ascii ''color'')
   \<and> scope_of (heap sample_registry 3) = Some 5
   \<and> scope_admits sample_scope (Scope_ANY sample_scope) 5
   \<and> query sample_scope (fst (register sample_scope sample_registry [1, 3, 2]))
        (QString (ascii ''color'')) (Scope_ANY sample_scope) = Some 3
   \<and> heap (fst (register sample_scope sample_registry [1, 3, 2])) 1
        = BlotConstructor (sample_blot 1 ''a'' (Some ''c1'') (Some (SingleTag (ascii ''X''))))"
proof -
  let ?ds = "[1, 3, 2] :: nat list"
  have s: "snd (register sample_scope sample_registry ?ds) = Inr ?ds"
    by (simp add: sample_defs)
  then have r: "register sample_scope sample_registry ?ds
      = (fst (register sample_scope sample_registry ?ds), Inr ?ds)"
    by (metis prod.collapse)
  have n: "def_name (heap sample_registry 3) = Some (ascii ''color'')"
    by (simp add: sample_defs)
  have p: "\<forall>x \<in> set [2]. def_name (heap sample_registry x) \<noteq> Some (ascii ''color'')"
    by (simp add: sample_defs)
  have c: "scope_of (heap sample_registry 3) = Some 5"
    by (simp add: sample_defs)
  have a: "scope_admits sample_scope (Scope_ANY sample_scope) 5"
    by (simp add: sample_scope_def scope_admits_def)
  have l: "?ds = [1] @ 3 # [2::nat]" by simp
  note rt = register_query_roundtrip [OF r]
  from rt l n p c a
  have q: "query sample_scope (fst (register sample_scope sample_registry ?ds))
      (QString (ascii ''color'')) (Scope_ANY sample_scope) = Some 3"
    by blast
  from rt have "heap (fst (register sample_scope sample_registry ?ds)) 1
      = (upcased sample_scope ^^ count_list ?ds 1) (heap sample_registry 1)"
    by blast
  then have h: "heap (fst (register sample_scope sample_registry ?ds)) 1
        = BlotConstructor (sample_blot 1 ''a'' (Some ''c1'') (Some (SingleTag (ascii ''X''))))"
    by (simp add: upcased_def sample_registry_def new_registry_def sample_heap_def
        sample_blot_def sample_scope_def ascii_def ascii_upper_def)
  from s n c a q h show ?thesis by blast
qed

text \<open>
  Claim C8 as stated fails: two blot classes named \<open>a\<close> are both accepted in one
  batch, and \<^verbatim>\<open>query\<close> of the name returns the second, not the first. An attribute
  handler whose scope has no level bit is accepted, and \<^verbatim>\<open>query\<close> of its name returns
  null.
\<close>

theorem register_query_roundtrip_counterexample:
  "snd (register sample_scope sample_registry [1, 6]) = Inr [1, 6]
   \<and> def_name (heap sample_registry 1) = Some (ascii ''a'')
   \<and> query sample_scope (fst (register sample_scope sample_registry [1, 6]))
        (QString (ascii ''a'')) (Scope_ANY sample_scope) = Some 6
   \<and> snd (register sample_scope sample_registry [4]) = Inr [4]
   \<and> def_name (heap sample_registry 4) = Some (ascii ''flat'')
   \<and> query sample_scope (fst (register sample_scope sample_registry [4]))
        (QString (ascii ''flat'')) (Scope_ANY sample_scope) = None"
  by (simp add: sample_defs query_def)

subsection \<open>create\<close>

lemma create_None:
  "query S s input (Scope_ANY S) = None \<Longrightarrow>
   create S s scroll input v = (s, Inl UnresolvedBlot)"
  by (simp add: create_def)

lemma create_blot:
  "query S s input (Scope_ANY S) = Some m \<Longrightarrow> heap s m = BlotConstructor b \<Longrightarrow>
   create S s scroll input v =
     (let blot = construct b scroll (case input of QNode n \<Rightarrow> n | _ \<Rightarrow> create_node b v) v
      in (s\<lparr>blots := (blots s)(node_id (domNode blot) \<mapsto> blot)\<rparr>, Inr blot))"
  by (simp add: create_def Let_def)

lemma create_other:
  "query S s input (Scope_ANY S) = Some m \<Longrightarrow> \<not> isBlotConstructor (heap s m) \<Longrightarrow>
   create S s scroll input v = (s, Inl TypeError)"
  by (cases "heap s m") (simp_all add: create_def)

text \<open>
  Claim C6, as amended. \<^verbatim>\<open>create\<close> fails with \<open>UnresolvedBlot\<close> exactly when
  \<^verbatim>\<open>query(input)\<close> under \<^verbatim>\<open>ANY\<close> returns null. When \<^verbatim>\<open>query\<close> resolves a blot class,
  \<^verbatim>\<open>create\<close> returns the blot that the class constructs, around the input node or
  around the node made by the factory of the class. When \<^verbatim>\<open>query\<close> resolves a
  definition that is not a blot class, \<^verbatim>\<open>create\<close> fails with a \<open>TypeError\<close> and
  leaves the state as it was.
\<close>

theorem create_unresolved:
  "(snd (create S s scroll input v) = Inl UnresolvedBlot
      \<longleftrightarrow> query S s input (Scope_ANY S) = None)
   \<and> (query S s input (Scope_ANY S) = Some m \<and> heap s m = BlotConstructor b \<longrightarrow>
        snd (create S s scroll input v)
          = Inr (construct b scroll (case input of QNode n \<Rightarrow> n | _ \<Rightarrow> create_node b v) v))
   \<and> (query S s input (Scope_ANY S) = Some m \<and> \<not> isBlotConstructor (heap s m) \<longrightarrow>
        create S s scroll input v = (s, Inl TypeError))"
proof (intro conjI impI)
  show "snd (create S s scroll input v) = Inl UnresolvedBlot
      \<longleftrightarrow> query S s input (Scope_ANY S) = None"
  proof (cases "query S s input (Scope_ANY S)")
    case None
    then show ?thesis by (simp add: create_None)
  next
    case (Some m')
    then show ?thesis
      by (cases "heap s m'") (simp_all add: create_def Let_def)
  qed
next
  assume "query S s input (Scope_ANY S) = Some m \<and> heap s m = BlotConstructor b"
  then show "snd (create S s scroll input v)
          = Inr (construct b scroll (case input of QNode n \<Rightarrow> n | _ \<Rightarrow> create_node b v) v)"
    by (simp add: create_blot Let_def)
next
  assume "query S s input (Scope_ANY S) = Some m \<and> \<not> isBlotConstructor (heap s m)"
  then show "create S s scroll input v = (s, Inl TypeError)"
    by (simp add: create_other)
qed

theorem create_unresolved_witness:
  "query sample_scope (fst (register sample_scope sample_registry [2, 3])) (QString (ascii ''b''))
       (Scope_ANY sample_scope) = Some 2
   \<and> heap (fst (register sample_scope sample_registry [2, 3])) 2
       = BlotConstructor (sample_blot 2 ''b'' None (Some (TagList [ascii ''X''])))
   \<and> snd (create sample_scope (fst (register sample_scope sample_registry [2, 3])) 0 (QString (ascii ''b'')) Undefined)
       = Inr \<lparr>blot_id = 2, domNode = Node 102 ElementNode (ascii ''X'') None (Returns None)\<rparr>
   \<and> query sample_scope (fst (register sample_scope sample_registry [2, 3])) (QString (ascii ''color''))
       (Scope_ANY sample_scope) = Some 3
   \<and> \<not> isBlotConstructor (heap (fst (register sample_scope sample_registry [2, 3])) 3)
   \<and> snd (create sample_scope (fst (register sample_scope sample_registry [2, 3])) 0 (QString (ascii ''color''))
            Undefined) = Inl TypeError
   \<and> query sample_scope (fst (register sample_scope sample_registry [2, 3])) (QString (ascii ''zz''))
       (Scope_ANY sample_scope) = None
   \<and> snd (create sample_scope (fst (register sample_scope sample_registry [2, 3])) 0 (QString (ascii ''zz''))
            Undefined) = Inl UnresolvedBlot"
  using
    create_unresolved [of sample_scope "fst (register sample_scope sample_registry [2, 3])" 0
      "QString (ascii ''b'')" Undefined 2 "sample_blot 2 ''b'' None (Some (TagList [ascii ''X'']))"]
    create_unresolved [of sample_scope "fst (register sample_scope sample_registry [2, 3])" 0
      "QString (ascii ''color'')" Undefined 3]
    create_unresolved [of sample_scope "fst (register sample_scope sample_registry [2, 3])" 0
      "QString (ascii ''zz'')" Undefined]
  by (simp add: sample_defs query_def)

text \<open>
  Claim C6 as stated fails: \<^verbatim>\<open>query\<close> resolves the name of an attribute handler, and
  \<^verbatim>\<open>create\<close> for that name returns no blot.
\<close>

theorem create_unresolved_counterexample:
  "query sample_scope (fst (register sample_scope sample_registry [3])) (QString (ascii ''color''))
       (Scope_ANY sample_scope) = Some 3
   \<and> snd (create sample_scope (fst (register sample_scope sample_registry [3])) 0 (QString (ascii ''color''))
            Undefined) = Inl TypeError"
  by (simp add: sample_defs query_def create_def)

text \<open>
  Claim C7. A successful \<^verbatim>\<open>create\<close> changes the table of bound nodes in one place:
  the node of the constructed blot is bound to the blot, whatever was bound to it
  before. \<^verbatim>\<open>find\<close> on that node then returns the blot that \<^verbatim>\<open>create\<close> returned.
\<close>

theorem create_binds_node:
  assumes "create S s scroll input v = (s', Inr blot)"
  shows "blots s' = (blots s)(node_id (domNode blot) \<mapsto> blot)
         \<and> Registry_find (blots s') (Some (domNode blot)) bubble = Some blot
         \<and> find_blot s' (Some (domNode blot)) False = Some blot"
proof -
  from assms have "blots s' = (blots s)(node_id (domNode blot) \<mapsto> blot)"
    by (auto simp: create_def Let_def split: option.splits registry_definition.splits)
  then show ?thesis by (simp add: find_blot_def)
qed

theorem create_binds_node_witness:
  "create sample_scope (fst (register sample_scope sample_bound [2])) 0 (QString (ascii ''b'')) Undefined
     = (fst (create sample_scope (fst (register sample_scope sample_bound [2])) 0 (QString (ascii ''b'')) Undefined),
        Inr \<lparr>blot_id = 2, domNode = Node 102 ElementNode (ascii ''X'') None (Returns None)\<rparr>)
   \<and> blots (fst (register sample_scope sample_bound [2])) 102
       = Some \<lparr>blot_id = 0, domNode = Node 102 ElementNode (ascii ''X'') None (Returns None)\<rparr>
   \<and> find_blot (fst (create sample_scope (fst (register sample_scope sample_bound [2])) 0 (QString (ascii ''b''))
          Undefined)) (Some (Node 102 ElementNode (ascii ''X'') None (Returns None))) False
       = Some \<lparr>blot_id = 2, domNode = Node 102 ElementNode (ascii ''X'') None (Returns None)\<rparr>"
proof -
  have c: "create sample_scope (fst (register sample_scope sample_bound [2])) 0 (QString (ascii ''b'')) Undefined
     = (fst (create sample_scope (fst (register sample_scope sample_bound [2])) 0 (QString (ascii ''b'')) Undefined),
        Inr \<lparr>blot_id = 2, domNode = Node 102 ElementNode (ascii ''X'') None (Returns None)\<rparr>)"
    by (simp add: sample_defs sample_bound_def query_def create_def)
  have b: "blots (fst (register sample_scope sample_bound [2])) 102
       = Some \<lparr>blot_id = 0, domNode = Node 102 ElementNode (ascii ''X'') None (Returns None)\<rparr>"
    by (simp add: sample_defs sample_bound_def)
  from create_binds_node [OF c, of False]
  have "find_blot (fst (create sample_scope (fst (register sample_scope sample_bound [2])) 0 (QString (ascii ''b''))
          Undefined)) (Some (Node 102 ElementNode (ascii ''X'') None (Returns None))) False
       = Some \<lparr>blot_id = 2, domNode = Node 102 ElementNode (ascii ''X'') None (Returns None)\<rparr>"
    by simp
  with c b show ?thesis by blast
qed

text \<open>
  Claim C10, as amended. When a name is filed by name for an attribute handler whose
  scope is admitted by \<^verbatim>\<open>ANY\<close>, \<^verbatim>\<open>query\<close> of the name under \<^verbatim>\<open>ANY\<close> resolves the
  handler, and \<^verbatim>\<open>create\<close> for the name does not fail with \<open>UnresolvedBlot\<close>: it
  fails with a \<open>TypeError\<close>.
\<close>

theorem create_attributor_name:
  assumes "tbl_get S (types s) nm = Entry r" and "heap s r = Attributor a"
    and "scope_admits S (Scope_ANY S) (scope a)"
  shows "query S s (QString nm) (Scope_ANY S) = Some r
         \<and> create S s scroll (QString nm) v = (s, Inl TypeError)
         \<and> snd (create S s scroll (QString nm) v) \<noteq> Inl UnresolvedBlot"
proof -
  from assms have q: "query S s (QString nm) (Scope_ANY S) = Some r"
    by (simp add: query_def scope_admits_def)
  moreover from assms(2) have "\<not> isBlotConstructor (heap s r)" by simp
  ultimately have "create S s scroll (QString nm) v = (s, Inl TypeError)"
    by (rule create_other)
  with q show ?thesis by simp
qed

theorem create_attributor_name_witness:
  "tbl_get sample_scope (types (fst (register sample_scope sample_registry [3]))) (ascii ''color'') = Entry 3
   \<and> heap (fst (register sample_scope sample_registry [3])) 3
       = Attributor \<lparr>scope = 5, attrName = ascii ''color'', keyName = Some (ascii ''color'')\<rparr>
   \<and> scope_admits sample_scope (Scope_ANY sample_scope) 5
   \<and> snd (create sample_scope (fst (register sample_scope sample_registry [3])) 0 (QString (ascii ''color''))
        (StringValue (ascii ''red''))) = Inl TypeError"
proof -
  have t: "tbl_get sample_scope (types (fst (register sample_scope sample_registry [3]))) (ascii ''color'') = Entry 3"
    by (simp add: sample_defs)
  have h: "heap (fst (register sample_scope sample_registry [3])) 3
       = Attributor \<lparr>scope = 5, attrName = ascii ''color'', keyName = Some (ascii ''color'')\<rparr>"
    by (simp add: sample_defs)
  have a: "scope_admits sample_scope (Scope_ANY sample_scope)
      (scope \<lparr>scope = 5, attrName = ascii ''color'', keyName = Some (ascii ''color'')\<rparr>)"
    by (simp add: scope_admits_def sample_scope_def)
  from create_attributor_name [OF t h a, of 0 "StringValue (ascii ''red'')"]
  have "snd (create sample_scope (fst (register sample_scope sample_registry [3])) 0 (QString (ascii ''color''))
        (StringValue (ascii ''red''))) = Inl TypeError"
    by simp
  with t h a show ?thesis by simp
qed

text \<open>
  Claim C10 as stated fails: an attribute handler whose scope has no level bit is
  registered under its name alone, and \<^verbatim>\<open>create\<close> for the name fails with
  \<open>UnresolvedBlot\<close>.
\<close>

theorem create_attributor_name_counterexample:
  "snd (register sample_scope sample_registry [4]) = Inr [4]
   \<and> tbl_get sample_scope (types (fst (register sample_scope sample_registry [4]))) (ascii ''flat'') = Entry 4
   \<and> heap (fst (register sample_scope sample_registry [4])) 4
       = Attributor \<lparr>scope = 1, attrName = ascii ''flat'', keyName = None\<rparr>
   \<and> snd (create sample_scope (fst (register sample_scope sample_registry [4])) 0 (QString (ascii ''flat''))
        Undefined) = Inl UnresolvedBlot"
  by (simp add: sample_defs query_def create_def)

subsection \<open>query of an element node\<close>

lemma split_inherited:
  "split_ws (ascii ''constructor c1'') = [ascii ''constructor'', ascii ''c1'']"
  by code_simp

lemma split_plain: "split_ws (ascii ''c1'') = [ascii ''c1'']"
  by code_simp

text \<open>
  Claim C5. For an element node, \<^verbatim>\<open>query\<close> should take the first piece of the class
  attribute that has an entry by class, and fall back to the entry by tag. The code
  reads the table by class as an object: for the piece \<^verbatim>\<open>constructor\<close>, which no
  definition has registered, it finds the member inherited from \<^verbatim>\<open>Object.prototype\<close>
  and stops there. With the classes \<open>a\<close> (class \<open>c1\<close>, tag \<open>X\<close>) and \<open>b\<close> (tag \<open>X\<close>)
  registered, an element \<open>X\<close> of class \<^verbatim>\<open>constructor c1\<close> resolves to null, neither to
  \<open>a\<close> by its class nor to the entry by tag, while the same element of class \<open>c1\<close>
  resolves to \<open>a\<close>.
\<close>

theorem query_element_inherited:
  "tbl_get sample_scope (classes (fst (register sample_scope sample_registry [1, 2])))
       (ascii ''constructor'') = Inherited
   \<and> tbl_get sample_scope (classes (fst (register sample_scope sample_registry [1, 2])))
       (ascii ''c1'') = Entry 1
   \<and> tbl_get sample_scope (tags (fst (register sample_scope sample_registry [1, 2])))
       (ascii ''X'') = Entry 2
   \<and> candidate sample_scope (fst (register sample_scope sample_registry [1, 2]))
       (QNode sample_inherited) = Inherited
   \<and> query sample_scope (fst (register sample_scope sample_registry [1, 2]))
       (QNode sample_inherited) (Scope_ANY sample_scope) = None
   \<and> query sample_scope (fst (register sample_scope sample_registry [1, 2]))
       (QNode sample_plain) (Scope_ANY sample_scope) = Some 1"
  by (simp add: sample_defs query_def sample_inherited_def sample_plain_def
      split_inherited [unfolded ascii_def, simplified] split_plain [unfolded ascii_def, simplified])

end
